theory Spec2Isabelle
  imports Main "HOL-Library.Word"
begin

unbundle bit_operations_syntax

section \<open>Python values shared by the three entrypoints\<close>

text \<open>
  The three scripts are Python. A Python \<open>str\<close> is modelled as a \<open>string\<close>; a character
  of code 128 or more stands for a non-ASCII character (the code compares characters only
  with \<open>'.'\<close> and \<open>'='\<close> and asks whether they are ASCII). Python's \<open>None\<close> is the
  \<open>None\<close> of an option type. A call that can raise returns \<open>exn + 'a\<close>, with
  \<open>Inl\<close> for the exception; every exception modelled here is a subclass of Python's
  \<open>Exception\<close>, which is what \<open>except Exception\<close> catches.
\<close>

datatype exn =
    KeyError string
  | TypeError
  | ValueError string
  | Binascii_Incorrect_padding
  | Binascii_Invalid_length nat
  | UnicodeDecodeError
  | JSONDecodeError
  | OSError string
  | HTTPError int
  | RequestException string
  | Exception string

text \<open>
  What \<open>json.load\<close> and \<open>json.loads\<close> return, and what \<open>json.dumps\<close> takes. The
  representation of numbers is left open (\<open>'n\<close>). A \<open>dict\<close> is an association list
  read with \<open>map_of\<close>.
\<close>

datatype 'n json =
    JNull
  | JBool bool
  | JNum 'n
  | JStr string
  | JArr "'n json list"
  | JObj "(string \<times> 'n json) list"

text \<open>\<open>obj[key]\<close> with a string key: only a dict that has the key answers.\<close>

fun getitem :: "'n json \<Rightarrow> string \<Rightarrow> exn + 'n json" where
  "getitem (JObj d) key = (case map_of d key of None \<Rightarrow> Inl (KeyError key) | Some v \<Rightarrow> Inr v)"
| "getitem _ key = Inl TypeError"

section \<open>02_runtime/deployment/invoke.py: the batch invoker\<close>

text \<open>
  The estimation agent class is imported from a package outside these files, so it is a
  parameter: its constructor is a value that is either an exception or an agent, and an
  agent is the record of its two operations. The calls made on it are recorded in order.
\<close>

record ('v, 'r, 's) agent =
  estimate_costs :: "'v option \<Rightarrow> exn + 'r"
  estimate_costs_stream :: "'v option \<Rightarrow> exn + 's"

datatype 'v agent_call =
    Call_AWSCostEstimatorAgent
  | Call_estimate_costs "'v option"

text \<open>
  \<^verbatim>\<open>
  def invoke(payload):
      user_input = payload.get("prompt")
      agent = AWSCostEstimatorAgent()
      return agent.estimate_costs(user_input)
  \<close>
\<close>

definition invoke ::
  "(exn + ('v, 'r, 's) agent) \<Rightarrow> (string \<rightharpoonup> 'v) \<Rightarrow> 'v agent_call list \<times> (exn + 'r)" where
  "invoke AWSCostEstimatorAgent payload =
     (let user_input = payload ''prompt'' in
      case AWSCostEstimatorAgent of
        Inl e \<Rightarrow> ([Call_AWSCostEstimatorAgent], Inl e)
      | Inr agent \<Rightarrow>
          ([Call_AWSCostEstimatorAgent, Call_estimate_costs user_input],
           estimate_costs agent user_input))"

section \<open>02_runtime/deployment/invoke\_async.py: the streaming invoker\<close>

text \<open>
  An asynchronous generator is a state and its \<open>__anext__\<close>: one step yields an event
  and the next state, stops (\<open>StopAsyncIteration\<close>) or raises.
\<close>

datatype ('e, 's) anext =
    Yield 'e 's
  | StopAsyncIteration
  | Raise exn

text \<open>
  \<^verbatim>\<open>
  async def invoke(payload):
      user_input = payload.get("prompt")
      agent = AWSCostEstimatorAgent()
      stream = agent.estimate_costs_stream(user_input)
      async for event in stream:
          yield (event)
  \<close>
  Calling the function only creates the generator (\<open>Not_started\<close>); the body runs at the
  first step. \<open>Looping\<close> is the suspension at \<open>yield\<close>, holding the upstream stream.
\<close>

datatype ('v, 's) invoke_async_state =
    Not_started "string \<rightharpoonup> 'v"
  | Looping 's

definition async_for_step ::
  "('s \<Rightarrow> ('e, 's) anext) \<Rightarrow> 's \<Rightarrow> ('e, ('v, 's) invoke_async_state) anext" where
  "async_for_step stream_anext stream =
     (case stream_anext stream of
        Yield event stream' \<Rightarrow> Yield event (Looping stream')
      | StopAsyncIteration \<Rightarrow> StopAsyncIteration
      | Raise e \<Rightarrow> Raise e)"

fun invoke_async ::
  "(exn + ('v, 'r, 's) agent) \<Rightarrow> ('s \<Rightarrow> ('e, 's) anext) \<Rightarrow>
   ('v, 's) invoke_async_state \<Rightarrow> ('e, ('v, 's) invoke_async_state) anext" where
  "invoke_async AWSCostEstimatorAgent stream_anext (Not_started payload) =
     (let user_input = payload ''prompt'' in
      case AWSCostEstimatorAgent of
        Inl e \<Rightarrow> Raise e
      | Inr agent \<Rightarrow>
          (case estimate_costs_stream agent user_input of
             Inl e \<Rightarrow> Raise e
           | Inr stream \<Rightarrow> async_for_step stream_anext stream))"
| "invoke_async AWSCostEstimatorAgent stream_anext (Looping stream) =
     async_for_step stream_anext stream"

text \<open>
  Draining a generator: \<open>emits step s es\<close> says that, stepped from \<open>s\<close>, it yields exactly
  the events \<open>es\<close>, in this order, and then stops.
\<close>

fun emits :: "('s \<Rightarrow> ('e, 's) anext) \<Rightarrow> 's \<Rightarrow> 'e list \<Rightarrow> bool" where
  "emits step s [] = (case step s of StopAsyncIteration \<Rightarrow> True | _ \<Rightarrow> False)"
| "emits step s (e # es) =
     (case step s of Yield e' s' \<Rightarrow> e' = e \<and> emits step s' es | _ \<Rightarrow> False)"

section \<open>03_identity/test\_identity\_agent.py\<close>

subsection \<open>The standard library and the HTTP client\<close>

text \<open>
  \<open>base64.b64decode(s)\<close> with a \<open>str\<close> argument, as CPython 3.11 to 3.13 computes it:
  the string is encoded as ASCII (a non-ASCII character raises \<open>ValueError\<close>), then
  \<open>binascii.a2b_base64\<close> runs in its default, non-strict mode. There a character outside
  the alphabet is skipped, a \<open>'='\<close> ends the input once the current group of four holds
  at least two characters and the \<open>'='\<close>s seen since the last character complete it, and
  input that ends inside a group raises \<open>binascii.Error\<close>.
\<close>

definition table_a2b_base64 :: "char \<Rightarrow> 8 word option" where
  "table_a2b_base64 c =
     (let n = (of_char c :: nat) in
      if 65 \<le> n \<and> n \<le> 90 then Some (of_nat (n - 65))
      else if 97 \<le> n \<and> n \<le> 122 then Some (of_nat (n - 71))
      else if 48 \<le> n \<and> n \<le> 57 then Some (of_nat (n + 4))
      else if n = 43 then Some 62
      else if n = 47 then Some 63
      else None)"

fun a2b_base64 :: "nat \<Rightarrow> 8 word \<Rightarrow> nat \<Rightarrow> 8 word list \<Rightarrow> string \<Rightarrow> exn + 8 word list" where
  "a2b_base64 quad_pos leftchar pads bin_data [] =
     (if quad_pos \<noteq> 0 then
        (if quad_pos = 1 then Inl (Binascii_Invalid_length (length bin_data div 3 * 4 + 1))
         else Inl Binascii_Incorrect_padding)
      else Inr bin_data)"
| "a2b_base64 quad_pos leftchar pads bin_data (c # ascii_data) =
     (if c = CHR ''='' then
        (if 2 \<le> quad_pos \<and> 4 \<le> quad_pos + (pads + 1) then Inr bin_data
         else a2b_base64 quad_pos leftchar (if 2 \<le> quad_pos then pads + 1 else pads)
                bin_data ascii_data)
      else
        (case table_a2b_base64 c of
           None \<Rightarrow> a2b_base64 quad_pos leftchar pads bin_data ascii_data
         | Some this_ch \<Rightarrow>
             (if quad_pos = 0 then a2b_base64 1 this_ch 0 bin_data ascii_data
              else if quad_pos = 1 then
                a2b_base64 2 (this_ch AND 0x0f) 0
                  (bin_data @ [push_bit 2 leftchar OR drop_bit 4 this_ch]) ascii_data
              else if quad_pos = 2 then
                a2b_base64 3 (this_ch AND 0x03) 0
                  (bin_data @ [push_bit 4 leftchar OR drop_bit 2 this_ch]) ascii_data
              else
                a2b_base64 0 0 0 (bin_data @ [push_bit 6 leftchar OR this_ch]) ascii_data)))"

definition b64decode :: "string \<Rightarrow> exn + 8 word list" where
  "b64decode s =
     (if list_all (\<lambda>c. (of_char c :: nat) < 128) s then a2b_base64 0 0 0 [] s
      else Inl (ValueError ''string argument should contain only ASCII characters''))"

text \<open>\<open>s.split(sep)\<close> for a separator of one character: never empty, \<open>"".split(".") = [""]\<close>.\<close>

fun split_from :: "char \<Rightarrow> string \<Rightarrow> string \<Rightarrow> string list" where
  "split_from sep cur [] = [rev cur]"
| "split_from sep cur (c # cs) =
     (if c = sep then rev cur # split_from sep [] cs else split_from sep (c # cur) cs)"

definition split :: "string \<Rightarrow> char \<Rightarrow> string list" where
  "split s sep = split_from sep [] s"

text \<open>
  \<open>response.raise_for_status()\<close> of the requests library: it raises \<open>HTTPError\<close> for a
  client error (400 to 499) and for a server error (500 to 599), and returns otherwise.
\<close>

record response =
  status_code :: int
  text_of :: string

definition raise_for_status :: "response \<Rightarrow> exn + unit" where
  "raise_for_status r =
     (if 400 \<le> status_code r \<and> status_code r < 500 then Inl (HTTPError (status_code r))
      else if 500 \<le> status_code r \<and> status_code r < 600 then Inl (HTTPError (status_code r))
      else Inr ())"

record 'n request =
  url :: "'n json"
  headers :: "(string \<times> string) list"
  data :: string

text \<open>
  The rest of the environment is a parameter: the file system and \<open>json.load\<close> for the
  configuration file, \<open>bytes.decode\<close> and \<open>json.loads\<close> for a decoded token segment, the
  clock rendered by \<open>strftime\<close>, \<open>json.dumps\<close>, and \<open>requests.post\<close>, which answers with
  a response or raises (a transport error).
\<close>

record 'n world =
  open_read :: "string \<Rightarrow> exn + string"
  json_load :: "string \<Rightarrow> exn + 'n json"
  bytes_decode :: "8 word list \<Rightarrow> exn + string"
  json_loads :: "string \<Rightarrow> exn + 'n json"
  now_utc_strftime :: "string \<Rightarrow> string"
  json_dumps :: "'n json \<Rightarrow> string"
  requests_post :: "'n request \<Rightarrow> exn + response"

subsection \<open>The module-level configuration load (lines 29 to 38)\<close>

text \<open>
  \<^verbatim>\<open>
  CONFIG_FILE = Path("inbound_authorizer.json")
  OAUTH_PROVIDER = ""
  OAUTH_SCOPE = ""
  RUNTIME_URL = ""
  BASE64_BLOCK_SIZE = 4
  with CONFIG_FILE.open('r') as f:
      config = json.load(f)
      OAUTH_PROVIDER = config["provider"]["name"]
      OAUTH_SCOPE = config["cognito"]["scope"]
      RUNTIME_URL = config["runtime"]["url"]
  \<close>
  The module's globals are passed as state. An exception here leaves the module body, so
  nothing below it (the functions, the driver) is ever defined or run.
\<close>

record 'n globals =
  OAUTH_PROVIDER :: "'n json"
  OAUTH_SCOPE :: "'n json"
  RUNTIME_URL :: "'n json"

definition CONFIG_FILE :: string where
  "CONFIG_FILE = ''inbound_authorizer.json''"

definition BASE64_BLOCK_SIZE :: nat where
  "BASE64_BLOCK_SIZE = 4"

definition initial_globals :: "'n globals" where
  "initial_globals = \<lparr>OAUTH_PROVIDER = JStr [], OAUTH_SCOPE = JStr [], RUNTIME_URL = JStr []\<rparr>"

definition getitem2 :: "'n json \<Rightarrow> string \<Rightarrow> string \<Rightarrow> exn + 'n json" where
  "getitem2 config k1 k2 = (case getitem config k1 of Inl e \<Rightarrow> Inl e | Inr v \<Rightarrow> getitem v k2)"

definition load_config :: "'n world \<Rightarrow> 'n globals \<Rightarrow> 'n globals \<times> exn option" where
  "load_config w g =
     (case open_read w CONFIG_FILE of
        Inl e \<Rightarrow> (g, Some e)
      | Inr f \<Rightarrow>
     (case json_load w f of
        Inl e \<Rightarrow> (g, Some e)
      | Inr config \<Rightarrow>
     (case getitem2 config ''provider'' ''name'' of
        Inl e \<Rightarrow> (g, Some e)
      | Inr v1 \<Rightarrow> let g1 = g\<lparr>OAUTH_PROVIDER := v1\<rparr> in
     (case getitem2 config ''cognito'' ''scope'' of
        Inl e \<Rightarrow> (g1, Some e)
      | Inr v2 \<Rightarrow> let g2 = g1\<lparr>OAUTH_SCOPE := v2\<rparr> in
     (case getitem2 config ''runtime'' ''url'' of
        Inl e \<Rightarrow> (g2, Some e)
      | Inr v3 \<Rightarrow> (g2\<lparr>RUNTIME_URL := v3\<rparr>, None))))))"

text \<open>
  The specification's reading of the configuration file, for comparison: the value under a
  nested key of \<open>{"provider": {"name": ..}, "cognito": {"scope": ..}, "runtime": {"url": ..}}\<close>,
  if the key is there.
\<close>

fun member_of :: "'n json \<Rightarrow> string \<Rightarrow> 'n json option" where
  "member_of (JObj d) key = map_of d key"
| "member_of _ key = None"

definition nested_key :: "'n json \<Rightarrow> string \<Rightarrow> string \<Rightarrow> 'n json option" where
  "nested_key config k1 k2 = (case member_of config k1 of None \<Rightarrow> None | Some v \<Rightarrow> member_of v k2)"

subsection \<open>log\_jwt\_token\_details (lines 41 to 66)\<close>

text \<open>
  What the function does to the outside is recorded in order: the strings handed to
  \<open>b64decode\<close>, the log records written, and (for the caller below) the HTTP requests sent.
\<close>

datatype 'n event =
    Call_b64decode string
  | Log_info_token_loaded
  | Log_info_token_part nat "'n json"
  | Log_error_failed_to_decode nat exn
  | Http_post "'n request"

text \<open>
  Lines 57 to 61:
  \<^verbatim>\<open>
  num_padding_chars = BASE64_BLOCK_SIZE - (len(part) % BASE64_BLOCK_SIZE)
  if num_padding_chars != BASE64_BLOCK_SIZE:
      part_for_decode = part + '=' * num_padding_chars
  else:
      part_for_decode = part
  \<close>
  The remainder is below 4, so the subtraction on \<open>nat\<close> is Python's.
\<close>

definition part_for_decode :: "string \<Rightarrow> string" where
  "part_for_decode part =
     (let num_padding_chars = BASE64_BLOCK_SIZE - (length part mod BASE64_BLOCK_SIZE) in
      if num_padding_chars \<noteq> BASE64_BLOCK_SIZE then part @ replicate num_padding_chars CHR ''=''
      else part)"

text \<open>
  Lines 63 and 64, the rest of the \<open>try\<close> body:
  \<^verbatim>\<open>
  decoded = base64.b64decode(part_for_decode)
  logger.info(f"\tToken part {i}: {json.loads(decoded.decode())}")
  \<close>
\<close>

definition try_body :: "'n world \<Rightarrow> nat \<Rightarrow> string \<Rightarrow> 'n event list \<times> (exn + unit)" where
  "try_body w i part =
     (let p = part_for_decode part in
      case b64decode p of
        Inl e \<Rightarrow> ([Call_b64decode p], Inl e)
      | Inr decoded \<Rightarrow>
     (case bytes_decode w decoded of
        Inl e \<Rightarrow> ([Call_b64decode p], Inl e)
      | Inr s \<Rightarrow>
     (case json_loads w s of
        Inl e \<Rightarrow> ([Call_b64decode p], Inl e)
      | Inr obj \<Rightarrow> ([Call_b64decode p, Log_info_token_part i obj], Inr ()))))"

text \<open>
  The loop over \<open>enumerate(token_parts[:2])\<close> with its handler
  \<^verbatim>\<open>
  except Exception as e:
      logger.error(f"\t... Failed to decode token part {i}: {e}")
  \<close>
  A raise of the \<open>try\<close> body is caught, logged, and the loop goes on.
\<close>

fun for_parts :: "'n world \<Rightarrow> (nat \<times> string) list \<Rightarrow> 'n event list \<times> (exn + unit)" where
  "for_parts w [] = ([], Inr ())"
| "for_parts w ((i, part) # rest) =
     (case try_body w i part of
        (evs, Inr _) \<Rightarrow> (case for_parts w rest of (evs', r) \<Rightarrow> (evs @ evs', r))
      | (evs, Inl e) \<Rightarrow>
          (case for_parts w rest of
             (evs', r) \<Rightarrow> (evs @ [Log_error_failed_to_decode i e] @ evs', r)))"

definition log_jwt_token_details :: "'n world \<Rightarrow> string \<Rightarrow> 'n event list \<times> (exn + unit)" where
  "log_jwt_token_details w access_token =
     (let token_parts = split access_token CHR ''.'' in
      for_parts w (enumerate 0 (take 2 token_parts)))"

text \<open>Reading the record of effects: the arguments of \<open>b64decode\<close>, the log, the requests.\<close>

fun b64decode_calls :: "'n event list \<Rightarrow> string list" where
  "b64decode_calls [] = []"
| "b64decode_calls (Call_b64decode s # evs) = s # b64decode_calls evs"
| "b64decode_calls (_ # evs) = b64decode_calls evs"

fun log_records :: "'n event list \<Rightarrow> 'n event list" where
  "log_records [] = []"
| "log_records (Call_b64decode s # evs) = log_records evs"
| "log_records (Http_post r # evs) = log_records evs"
| "log_records (ev # evs) = ev # log_records evs"

fun http_posts :: "'n event list \<Rightarrow> 'n request list" where
  "http_posts [] = []"
| "http_posts (Http_post r # evs) = r # http_posts evs"
| "http_posts (_ # evs) = http_posts evs"

text \<open>
  The value the \<open>try\<close> body logs for a segment, or the exception it raises: the three
  library calls in sequence.
\<close>

definition decode_segment :: "'n world \<Rightarrow> string \<Rightarrow> exn + 'n json" where
  "decode_segment w part =
     (case b64decode (part_for_decode part) of
        Inl e \<Rightarrow> Inl e
      | Inr decoded \<Rightarrow>
          (case bytes_decode w decoded of Inl e \<Rightarrow> Inl e | Inr s \<Rightarrow> json_loads w s))"

definition segment_record :: "'n world \<Rightarrow> nat \<Rightarrow> string \<Rightarrow> 'n event" where
  "segment_record w i part =
     (case decode_segment w part of
        Inl e \<Rightarrow> Log_error_failed_to_decode i e
      | Inr obj \<Rightarrow> Log_info_token_part i obj)"

subsection \<open>\_cost\_estimator\_with\_auth (lines 76 to 99)\<close>

text \<open>\<open>f"{access_token}"\<close> and the truth value of \<open>access_token\<close>, a \<open>str\<close> or \<open>None\<close>.\<close>

fun format_value :: "string option \<Rightarrow> string" where
  "format_value None = ''None''"
| "format_value (Some s) = s"

fun truthy :: "string option \<Rightarrow> bool" where
  "truthy None = False"
| "truthy (Some s) = (s \<noteq> [])"

text \<open>
  \<^verbatim>\<open>
  session_id = f"runtime-with-identity-{datetime.now(timezone.utc).strftime('%Y%m%dT%H%M%S%fZ')}"
  headers = {
      "Authorization": f"Bearer {access_token}",
      "Content-Type": "application/json",
      "X-Amzn-Bedrock-AgentCore-Runtime-Session-Id": session_id,
      "X-Amzn-Trace-Id": session_id,
  }
  ... requests.post(RUNTIME_URL, headers=headers,
                    data=json.dumps({"prompt": architecture_description}))
  \<close>
\<close>

definition session_id_of :: "'n world \<Rightarrow> string" where
  "session_id_of w = ''runtime-with-identity-'' @ now_utc_strftime w ''%Y%m%dT%H%M%S%fZ''"

definition post_request :: "'n world \<Rightarrow> 'n globals \<Rightarrow> string \<Rightarrow> string option \<Rightarrow> 'n request" where
  "post_request w g architecture_description access_token =
     (let session_id = session_id_of w in
      \<lparr>url = RUNTIME_URL g,
       headers =
         [(''Authorization'', ''Bearer '' @ format_value access_token),
          (''Content-Type'', ''application/json''),
          (''X-Amzn-Bedrock-AgentCore-Runtime-Session-Id'', session_id),
          (''X-Amzn-Trace-Id'', session_id)],
       data = json_dumps w (JObj [(''prompt'', JStr architecture_description)])\<rparr>)"

text \<open>
  \<^verbatim>\<open>
  if access_token:
      logger.info("... Successfully load the access token from AgentCore Identity!")
      log_jwt_token_details(access_token)
  ...
  response = requests.post(...)
  response.raise_for_status()
  return response.text
  \<close>
\<close>

fun log_token_if_present :: "'n world \<Rightarrow> string option \<Rightarrow> 'n event list \<times> (exn + unit)" where
  "log_token_if_present w None = ([], Inr ())"
| "log_token_if_present w (Some access_token) =
     (if truthy (Some access_token) then
        (case log_jwt_token_details w access_token of
           (evs, r) \<Rightarrow> (Log_info_token_loaded # evs, r))
      else ([], Inr ()))"

definition cost_estimator_with_auth ::
  "'n world \<Rightarrow> 'n globals \<Rightarrow> string \<Rightarrow> string option \<Rightarrow> 'n event list \<times> (exn + string)" where
  "cost_estimator_with_auth w g architecture_description access_token =
     (case log_token_if_present w access_token of
        (evs, Inl e) \<Rightarrow> (evs, Inl e)
      | (evs, Inr _) \<Rightarrow>
          (let req = post_request w g architecture_description access_token in
           case requests_post w req of
             Inl e \<Rightarrow> (evs @ [Http_post req], Inl e)
           | Inr response \<Rightarrow>
               (case raise_for_status response of
                  Inl e \<Rightarrow> (evs @ [Http_post req], Inl e)
                | Inr _ \<Rightarrow> (evs @ [Http_post req], Inr (text_of response)))))"

subsection \<open>The base64 alphabet\<close>

text \<open>
  The 64 characters of the standard base64 alphabet, which is the one \<open>b64decode\<close> reads
  when it is given no alternative characters.
\<close>

definition base64_alphabet :: string where
  "base64_alphabet = ''ABCDEFGHIJKLMNOPQRSTUVWXYZabcdefghijklmnopqrstuvwxyz0123456789+/''"

definition base64_chars :: "string \<Rightarrow> bool" where
  "base64_chars s = list_all (\<lambda>c. c \<in> set base64_alphabet) s"

subsection \<open>Concrete environments\<close>

text \<open>
  A small environment to run the definitions on: the configuration file exists and holds the
  three keys, bytes decode one character each, \<open>json.loads\<close> knows the empty object only,
  the clock is fixed, and every POST is answered with the given status and the body
  \<open>"body"\<close>. The agent prices a prompt and streams three events.
\<close>

definition example_world :: "int \<Rightarrow> nat world" where
  "example_world status =
     \<lparr>open_read = (\<lambda>path. if path = CONFIG_FILE then Inr ''config'' else Inl (OSError path)),
      json_load = (\<lambda>f. Inr (JObj [(''provider'', JObj [(''name'', JStr ''p'')]),
                                     (''cognito'', JObj [(''scope'', JStr ''s'')]),
                                     (''runtime'', JObj [(''url'', JStr ''https://runtime'')])])),
      bytes_decode = (\<lambda>bs. Inr (map (\<lambda>b. char_of (unat b)) bs)),
      json_loads = (\<lambda>s. if s = ''{}'' then Inr (JObj []) else Inl JSONDecodeError),
      now_utc_strftime = (\<lambda>fmt. ''20250101T000000000000Z''),
      json_dumps = (\<lambda>j. case j of JObj [(k, JStr v)] \<Rightarrow> ''{'' @ k @ '': '' @ v @ ''}'' | _ \<Rightarrow> ''null''),
      requests_post = (\<lambda>r. Inr \<lparr>status_code = status, text_of = ''body''\<rparr>)\<rparr>"

definition example_agent :: "(string, string, nat list) agent" where
  "example_agent =
     \<lparr>estimate_costs = (\<lambda>v. case v of None \<Rightarrow> Inl TypeError | Some p \<Rightarrow> Inr (''cost of '' @ p)),
      estimate_costs_stream = (\<lambda>v. case v of None \<Rightarrow> Inl TypeError | Some p \<Rightarrow> Inr [1, 2, 3])\<rparr>"

fun example_anext :: "nat list \<Rightarrow> (nat, nat list) anext" where
  "example_anext [] = StopAsyncIteration"
| "example_anext (x # xs) = Yield x xs"

definition example_globals :: "nat globals" where
  "example_globals =
     \<lparr>OAUTH_PROVIDER = JStr ''p'', OAUTH_SCOPE = JStr ''s'', RUNTIME_URL = JStr ''https://runtime''\<rparr>"

definition incomplete_world :: "nat world" where
  "incomplete_world =
     (example_world 200)
       \<lparr>json_load := (\<lambda>f. Inr (JObj [(''provider'', JObj [(''name'', JStr ''p'')]),
                                       (''cognito'', JObj []),
                                       (''runtime'', JObj [(''url'', JStr ''https://runtime'')])]))\<rparr>"

section \<open>Properties of the token diagnostic logger\<close>

subsection \<open>Padding and decoding\<close>

lemma all_alphabet: "list_all (\<lambda>c. table_a2b_base64 c \<noteq> None \<and> c \<noteq> CHR ''='' \<and> (of_char c :: nat) < 128) base64_alphabet"
  unfolding base64_alphabet_def by (simp add: table_a2b_base64_def)

lemma alphabet_char:
  assumes "c \<in> set base64_alphabet"
  shows "table_a2b_base64 c \<noteq> None" and "c \<noteq> CHR ''=''" and "(of_char c :: nat) < 128"
  using assms all_alphabet unfolding list_all_iff by blast+

lemma a2b_base64_alphabet_run:
  assumes "base64_chars s" and "quad_pos < 4"
  shows "\<exists>leftchar' pads' bin_data'.
           a2b_base64 quad_pos leftchar pads bin_data (s @ rest) =
           a2b_base64 ((quad_pos + length s) mod 4) leftchar' pads' bin_data' rest"
  using assms
proof (induction s arbitrary: quad_pos leftchar pads bin_data)
  case Nil
  then show ?case by auto
next
  case (Cons c s)
  from Cons.prems have c: "c \<in> set base64_alphabet" and s: "base64_chars s"
    by (simp_all add: base64_chars_def)
  from alphabet_char[OF c] obtain v where v: "table_a2b_base64 c = Some v" and ne: "c \<noteq> CHR ''=''"
    by auto
  consider "quad_pos = 0" | "quad_pos = 1" | "quad_pos = 2" | "quad_pos = 3"
    using Cons.prems(2) by linarith
  then show ?case
  proof cases
    case 1
    from Cons.IH[OF s, of 1 v 0 bin_data] show ?thesis using 1 v ne by simp
  next
    case 2
    from Cons.IH[OF s, of 2 "v AND 0x0f" 0 "bin_data @ [push_bit 2 leftchar OR drop_bit 4 v]"]
    show ?thesis using 2 v ne by simp
  next
    case 3
    from Cons.IH[OF s, of 3 "v AND 0x03" 0 "bin_data @ [push_bit 4 leftchar OR drop_bit 2 v]"]
    show ?thesis using 3 v ne by simp
  next
    case 4
    from Cons.IH[OF s, of 0 0 0 "bin_data @ [push_bit 6 leftchar OR v]"]
    show ?thesis using 4 v ne by (simp add: mod_Suc)
  qed
qed

lemma base64_chars_ascii: "base64_chars s \<Longrightarrow> list_all (\<lambda>c. (of_char c :: nat) < 128) s"
  unfolding base64_chars_def list_all_iff using alphabet_char(3) by blast

lemma ascii_part_for_decode:
  "list_all (\<lambda>c. (of_char c :: nat) < 128) s \<Longrightarrow> list_all (\<lambda>c. (of_char c :: nat) < 128) (part_for_decode s)"
  by (auto simp: part_for_decode_def Let_def list_all_iff)

lemma part_for_decode_cases:
  "part_for_decode s = (if length s mod 4 = 0 then s else s @ replicate (4 - length s mod 4) CHR ''='')"
proof -
  have "4 - length s mod 4 = 4 \<longleftrightarrow> length s mod 4 = 0" by arith
  then show ?thesis by (simp add: part_for_decode_def BASE64_BLOCK_SIZE_def Let_def)
qed

lemma length_part_for_decode: "length (part_for_decode s) mod 4 = 0"
proof (cases "length s mod 4 = 0")
  case True
  then show ?thesis by (simp add: part_for_decode_cases)
next
  case False
  have "(length s + (4 - length s mod 4)) mod 4 = 0" by presburger
  with False show ?thesis by (simp add: part_for_decode_cases)
qed

lemma b64decode_padded_iff:
  assumes "base64_chars s"
  shows "(\<exists>b. b64decode (part_for_decode s) = Inr b) \<longleftrightarrow> length s mod 4 \<noteq> 1"
proof -
  have "list_all (\<lambda>c. (of_char c :: nat) < 128) (part_for_decode s)"
    using assms by (simp add: base64_chars_ascii ascii_part_for_decode)
  then have dec: "b64decode (part_for_decode s) = a2b_base64 0 0 0 [] (part_for_decode s)"
    by (simp add: b64decode_def)
  have r3: "replicate 3 CHR ''='' = ''===''" by (simp add: numeral_3_eq_3)
  have r2: "replicate 2 CHR ''='' = ''==''" by (simp add: numeral_2_eq_2)
  have "length s mod 4 < 4" by simp
  then consider "length s mod 4 = 0" | "length s mod 4 = 1" | "length s mod 4 = 2" | "length s mod 4 = 3"
    by linarith
  then show ?thesis
  proof cases
    case 1
    from a2b_base64_alphabet_run[OF assms, of 0 0 0 "[]" "[]"] 1
    show ?thesis unfolding dec by (auto simp: part_for_decode_cases)
  next
    case 2
    from a2b_base64_alphabet_run[OF assms, of 0 0 0 "[]" "''===''"] 2
    show ?thesis unfolding dec by (auto simp: part_for_decode_cases r3)
  next
    case 3
    from a2b_base64_alphabet_run[OF assms, of 0 0 0 "[]" "''==''"] 3
    show ?thesis unfolding dec by (auto simp: part_for_decode_cases r2)
  next
    case 4
    from a2b_base64_alphabet_run[OF assms, of 0 0 0 "[]" "''=''"] 4
    show ?thesis unfolding dec by (auto simp: part_for_decode_cases)
  qed
qed

text \<open>
  Claim C1, as the code has it. The padding appends \<open>4 - (len mod 4)\<close> characters
  \<open>'='\<close> to a segment whose length is not a multiple of 4 and nothing otherwise, so the
  padded length is always a multiple of 4. The padded segment is not always decodable:
  for a segment of base64 characters, \<open>b64decode\<close> accepts the padded segment exactly
  when the length of the segment is not 1 more than a multiple of 4.
\<close>

theorem part_for_decode_padding:
  "part_for_decode s =
     (if length s mod 4 = 0 then s else s @ replicate (4 - length s mod 4) CHR ''='')
   \<and> length (part_for_decode s) mod 4 = 0
   \<and> (base64_chars s \<longrightarrow>
        ((\<exists>b. b64decode (part_for_decode s) = Inr b) \<longleftrightarrow> length s mod 4 \<noteq> 1))"
  using part_for_decode_cases [of s] length_part_for_decode [of s] b64decode_padded_iff [of s]
  by blast

theorem part_for_decode_padding_witness:
  "base64_chars ''aGVsbG8'' \<and> length ''aGVsbG8'' mod 4 \<noteq> 1
   \<and> part_for_decode ''aGVsbG8'' = ''aGVsbG8=''
   \<and> (\<exists>b. b64decode (part_for_decode ''aGVsbG8'') = Inr b)"
proof -
  have h: "base64_chars ''aGVsbG8''" by code_simp
  have l: "length ''aGVsbG8'' mod 4 \<noteq> 1" by simp
  have p: "part_for_decode ''aGVsbG8'' = ''aGVsbG8=''" by code_simp
  from part_for_decode_padding [of "''aGVsbG8''"] h l
  have "\<exists>b. b64decode (part_for_decode ''aGVsbG8'') = Inr b" by blast
  with h l p show ?thesis by blast
qed

text \<open>
  The claim as the specification words it fails at the one-character segment \<open>"a"\<close>: its
  length is not a multiple of 4, three \<open>'='\<close> are appended, and \<open>b64decode("a===")\<close>
  raises \<open>binascii.Error\<close>.
\<close>

theorem part_for_decode_not_decodable:
  "length ''a'' mod 4 \<noteq> 0
   \<and> part_for_decode ''a'' = ''a'' @ replicate (4 - length ''a'' mod 4) CHR ''=''
   \<and> b64decode (part_for_decode ''a'') = Inl (Binascii_Invalid_length 1)"
  by code_simp

subsection \<open>The effects of the loop\<close>

lemma b64decode_calls_append:
  "b64decode_calls (xs @ ys) = b64decode_calls xs @ b64decode_calls ys"
  by (induction xs rule: b64decode_calls.induct) simp_all

lemma log_records_append: "log_records (xs @ ys) = log_records xs @ log_records ys"
  by (induction xs rule: log_records.induct) simp_all

lemma http_posts_append: "http_posts (xs @ ys) = http_posts xs @ http_posts ys"
  by (induction xs rule: http_posts.induct) simp_all

lemma try_body_calls: "b64decode_calls (fst (try_body w i part)) = [part_for_decode part]"
  by (simp add: try_body_def Let_def split: sum.splits)

lemma try_body_posts: "http_posts (fst (try_body w i part)) = []"
  by (simp add: try_body_def Let_def split: sum.splits)

lemma try_body_result:
  "snd (try_body w i part) = (case decode_segment w part of Inl e \<Rightarrow> Inl e | Inr obj \<Rightarrow> Inr ())"
  by (simp add: try_body_def decode_segment_def Let_def split: sum.splits)

lemma try_body_records:
  "log_records (fst (try_body w i part)) =
     (case decode_segment w part of Inl e \<Rightarrow> [] | Inr obj \<Rightarrow> [Log_info_token_part i obj])"
  by (simp add: try_body_def decode_segment_def Let_def split: sum.splits)

lemma for_parts_calls:
  "b64decode_calls (fst (for_parts w ps)) = map (\<lambda>(i, part). part_for_decode part) ps"
proof (induction ps)
  case Nil
  show ?case by simp
next
  case (Cons p ps)
  obtain i part where p: "p = (i, part)" by (cases p)
  obtain evs r where t: "try_body w i part = (evs, r)" by (cases "try_body w i part")
  obtain evs' r' where f: "for_parts w ps = (evs', r')" by (cases "for_parts w ps")
  from try_body_calls [of w i part] t have c: "b64decode_calls evs = [part_for_decode part]" by simp
  from Cons.IH f have "b64decode_calls evs' = map (\<lambda>(i, part). part_for_decode part) ps" by simp
  with c show ?case
    by (cases r) (simp_all add: p t f b64decode_calls_append)
qed

lemma for_parts_posts: "http_posts (fst (for_parts w ps)) = []"
proof (induction ps)
  case Nil
  show ?case by simp
next
  case (Cons p ps)
  obtain i part where p: "p = (i, part)" by (cases p)
  obtain evs r where t: "try_body w i part = (evs, r)" by (cases "try_body w i part")
  obtain evs' r' where f: "for_parts w ps = (evs', r')" by (cases "for_parts w ps")
  from try_body_posts [of w i part] t have c: "http_posts evs = []" by simp
  from Cons.IH f have "http_posts evs' = []" by simp
  with c show ?case
    by (cases r) (simp_all add: p t f http_posts_append)
qed

lemma for_parts_returns: "snd (for_parts w ps) = Inr ()"
proof (induction ps)
  case Nil
  show ?case by simp
next
  case (Cons p ps)
  obtain i part where p: "p = (i, part)" by (cases p)
  obtain evs r where t: "try_body w i part = (evs, r)" by (cases "try_body w i part")
  obtain evs' r' where f: "for_parts w ps = (evs', r')" by (cases "for_parts w ps")
  from Cons.IH f have "r' = Inr ()" by simp
  then show ?case
    by (cases r) (simp_all add: p t f)
qed

lemma for_parts_records:
  "log_records (fst (for_parts w ps)) = map (\<lambda>(i, part). segment_record w i part) ps"
proof (induction ps)
  case Nil
  show ?case by simp
next
  case (Cons p ps)
  obtain i part where p: "p = (i, part)" by (cases p)
  obtain evs r where t: "try_body w i part = (evs, r)" by (cases "try_body w i part")
  obtain evs' r' where f: "for_parts w ps = (evs', r')" by (cases "for_parts w ps")
  from try_body_records [of w i part] try_body_result [of w i part] t
  have c: "log_records evs = (case decode_segment w part of Inl e \<Rightarrow> [] | Inr obj \<Rightarrow> [Log_info_token_part i obj])"
    and d: "r = (case decode_segment w part of Inl e \<Rightarrow> Inl e | Inr obj \<Rightarrow> Inr ())"
    by simp_all
  from Cons.IH f have "log_records evs' = map (\<lambda>(i, part). segment_record w i part) ps" by simp
  with c d show ?case
    by (cases "decode_segment w part") (simp_all add: p t f log_records_append segment_record_def)
qed

lemma split_from_nonempty: "split_from sep cur s \<noteq> []"
  by (induction s arbitrary: cur) simp_all

lemma split_from_segment:
  "sep \<notin> set a \<Longrightarrow> split_from sep cur (a @ sep # rest) = (rev cur @ a) # split_from sep [] rest"
  by (induction a arbitrary: cur) auto

lemma map_enumerate_snd: "map (\<lambda>(i, part). f part) (enumerate n xs) = map f xs"
  by (induction xs arbitrary: n) simp_all

lemma split_example:
  "split (''aGVsbG8.d29ybGQ.'' @ sig) CHR ''.'' = ''aGVsbG8'' # ''d29ybGQ'' # split sig CHR ''.''"
proof -
  have 1: "CHR ''.'' \<notin> set ''aGVsbG8''" and 2: "CHR ''.'' \<notin> set ''d29ybGQ''" by simp_all
  have "split (''aGVsbG8'' @ CHR ''.'' # (''d29ybGQ'' @ CHR ''.'' # sig)) CHR ''.'' =
        ''aGVsbG8'' # ''d29ybGQ'' # split sig CHR ''.''"
    unfolding split_def split_from_segment [OF 1] split_from_segment [OF 2] by simp
  then show ?thesis by simp
qed

text \<open>
  Claim C2. The strings handed to \<open>b64decode\<close> are the padded first two segments of
  the token split at \<open>'.'\<close>, in order, and nothing else: a third segment is never
  decoded. For the token \<open>"aGVsbG8.d29ybGQ.sig"\<close> the first two segments are
  \<open>"aGVsbG8"\<close> and \<open>"d29ybGQ"\<close>, segment 0 is padded to \<open>"aGVsbG8="\<close>, and
  whatever stands in place of the signature the decoder is called on
  \<open>"aGVsbG8="\<close> and \<open>"d29ybGQ="\<close> only.
\<close>

theorem decodes_first_two_segments_only:
  "b64decode_calls (fst (log_jwt_token_details w access_token)) =
     map part_for_decode (take 2 (split access_token CHR ''.''))
   \<and> take 2 (split ''aGVsbG8.d29ybGQ.sig'' CHR ''.'') = [''aGVsbG8'', ''d29ybGQ'']
   \<and> part_for_decode ''aGVsbG8'' = ''aGVsbG8=''
   \<and> (\<forall>signature.
        b64decode_calls (fst (log_jwt_token_details w (''aGVsbG8.d29ybGQ.'' @ signature))) =
          [''aGVsbG8='', ''d29ybGQ=''])"
proof -
  have a: "b64decode_calls (fst (log_jwt_token_details w t)) =
             map part_for_decode (take 2 (split t CHR ''.''))" for t
    by (simp add: log_jwt_token_details_def for_parts_calls map_enumerate_snd)
  have b: "take 2 (split ''aGVsbG8.d29ybGQ.sig'' CHR ''.'') = [''aGVsbG8'', ''d29ybGQ'']"
    by code_simp
  have c: "part_for_decode ''aGVsbG8'' = ''aGVsbG8=''" and c': "part_for_decode ''d29ybGQ'' = ''d29ybGQ=''"
    by code_simp+
  have d: "b64decode_calls (fst (log_jwt_token_details w (''aGVsbG8.d29ybGQ.'' @ signature))) =
          [''aGVsbG8='', ''d29ybGQ='']" for signature
    unfolding a split_example by (simp add: c c' numeral_2_eq_2)
  from a b c d show ?thesis by blast
qed


text \<open>
  Claim C9. For every string the logger returns normally: the split is never empty, the
  slice \<open>[:2]\<close> has at most two segments (fewer when the token has fewer), and the
  function ends with no exception.
\<close>

theorem log_jwt_token_details_never_raises:
  "split access_token CHR ''.'' \<noteq> []
   \<and> length (take 2 (split access_token CHR ''.'')) \<le> 2
   \<and> (\<exists>evs. log_jwt_token_details w access_token = (evs, Inr ()))"
proof -
  have "snd (log_jwt_token_details w access_token) = Inr ()"
    by (simp add: log_jwt_token_details_def for_parts_returns)
  then have "\<exists>evs. log_jwt_token_details w access_token = (evs, Inr ())"
    by (cases "log_jwt_token_details w access_token") simp
  then show ?thesis by (simp add: split_def split_from_nonempty)
qed

text \<open>
  Claim C5. The logger returns normally whatever the decoders do, and its log has one
  record for each of the first two segments, which depends on that segment alone: the
  decoded object, or the error of the decoding failure. In particular, when the decoding
  of one of two segments fails, the failure is logged as an error and the other segment
  is still handed to \<open>b64decode\<close> and logged.
\<close>

theorem decode_failure_is_local:
  "snd (log_jwt_token_details w access_token) = Inr ()
   \<and> log_records (fst (log_jwt_token_details w access_token)) =
       map (\<lambda>(i, part). segment_record w i part) (enumerate 0 (take 2 (split access_token CHR ''.'')))
   \<and> (take 2 (split access_token CHR ''.'') = [p0, p1] \<longrightarrow> decode_segment w p0 = Inl e \<longrightarrow>
        log_records (fst (log_jwt_token_details w access_token)) =
          [Log_error_failed_to_decode 0 e, segment_record w 1 p1]
        \<and> b64decode_calls (fst (log_jwt_token_details w access_token)) =
          [part_for_decode p0, part_for_decode p1])
   \<and> (take 2 (split access_token CHR ''.'') = [p0, p1] \<longrightarrow> decode_segment w p1 = Inl e \<longrightarrow>
        log_records (fst (log_jwt_token_details w access_token)) =
          [segment_record w 0 p0, Log_error_failed_to_decode 1 e]
        \<and> b64decode_calls (fst (log_jwt_token_details w access_token)) =
          [part_for_decode p0, part_for_decode p1])"
proof -
  let ?parts = "take 2 (split access_token CHR ''.'')"
  let ?evs = "fst (log_jwt_token_details w access_token)"
  have r: "snd (log_jwt_token_details w access_token) = Inr ()"
    by (simp add: log_jwt_token_details_def for_parts_returns)
  have l: "log_records ?evs = map (\<lambda>(i, part). segment_record w i part) (enumerate 0 ?parts)"
    by (simp add: log_jwt_token_details_def for_parts_records)
  have c: "b64decode_calls ?evs = map part_for_decode ?parts"
    by (simp add: log_jwt_token_details_def for_parts_calls map_enumerate_snd)
  have two: "log_records ?evs = [segment_record w 0 p0, segment_record w 1 p1]
             \<and> b64decode_calls ?evs = [part_for_decode p0, part_for_decode p1]"
    if "?parts = [p0, p1]"
    unfolding l c that by simp
  have f0: "segment_record w 0 p0 = Log_error_failed_to_decode 0 e" if "decode_segment w p0 = Inl e"
    using that by (simp add: segment_record_def)
  have f1: "segment_record w 1 p1 = Log_error_failed_to_decode 1 e" if "decode_segment w p1 = Inl e"
    using that by (simp add: segment_record_def)
  have g0: "log_records ?evs = [Log_error_failed_to_decode 0 e, segment_record w 1 p1]
             \<and> b64decode_calls ?evs = [part_for_decode p0, part_for_decode p1]"
    if "?parts = [p0, p1]" and "decode_segment w p0 = Inl e"
    using two [OF that(1)] f0 [OF that(2)] by simp
  have g1: "log_records ?evs = [segment_record w 0 p0, Log_error_failed_to_decode 1 e]
             \<and> b64decode_calls ?evs = [part_for_decode p0, part_for_decode p1]"
    if "?parts = [p0, p1]" and "decode_segment w p1 = Inl e"
    using two [OF that(1)] f1 [OF that(2)] by simp
  from r l g0 g1 show ?thesis by blast
qed

theorem decode_failure_is_local_witness:
  "take 2 (split ''a.e30.sig'' CHR ''.'') = [''a'', ''e30'']
   \<and> decode_segment (example_world 200) ''a'' = Inl (Binascii_Invalid_length 1)
   \<and> log_records (fst (log_jwt_token_details (example_world 200) ''a.e30.sig'')) =
        [Log_error_failed_to_decode 0 (Binascii_Invalid_length 1), Log_info_token_part 1 (JObj [])]
   \<and> take 2 (split ''e30.a'' CHR ''.'') = [''e30'', ''a'']
   \<and> log_records (fst (log_jwt_token_details (example_world 200) ''e30.a'')) =
        [Log_info_token_part 0 (JObj []), Log_error_failed_to_decode 1 (Binascii_Invalid_length 1)]"
proof -
  have t1: "take 2 (split ''a.e30.sig'' CHR ''.'') = [''a'', ''e30'']" by code_simp
  have t2: "take 2 (split ''e30.a'' CHR ''.'') = [''e30'', ''a'']" by code_simp
  have d: "decode_segment (example_world 200) ''a'' = Inl (Binascii_Invalid_length 1)" by code_simp
  have s0: "segment_record (example_world 200) 0 ''e30'' = Log_info_token_part 0 (JObj [])" by code_simp
  have s1: "segment_record (example_world 200) 1 ''e30'' = Log_info_token_part 1 (JObj [])" by code_simp
  from decode_failure_is_local [of "example_world 200" "''a.e30.sig''" "''a''" "''e30''" "Binascii_Invalid_length 1"]
    t1 d
  have "log_records (fst (log_jwt_token_details (example_world 200) ''a.e30.sig'')) =
        [Log_error_failed_to_decode 0 (Binascii_Invalid_length 1), segment_record (example_world 200) 1 ''e30'']"
    by blast
  then have a: "log_records (fst (log_jwt_token_details (example_world 200) ''a.e30.sig'')) =
        [Log_error_failed_to_decode 0 (Binascii_Invalid_length 1), Log_info_token_part 1 (JObj [])]"
    unfolding s1 .
  from decode_failure_is_local [of "example_world 200" "''e30.a''" "''e30''" "''a''" "Binascii_Invalid_length 1"]
    t2 d
  have "log_records (fst (log_jwt_token_details (example_world 200) ''e30.a'')) =
        [segment_record (example_world 200) 0 ''e30'', Log_error_failed_to_decode 1 (Binascii_Invalid_length 1)]"
    by blast
  then have b: "log_records (fst (log_jwt_token_details (example_world 200) ''e30.a'')) =
        [Log_info_token_part 0 (JObj []), Log_error_failed_to_decode 1 (Binascii_Invalid_length 1)]"
    unfolding s0 .
  from t1 t2 d a b show ?thesis by blast
qed


section \<open>Properties of the two invokers\<close>

text \<open>
  Claim C3. For a payload that has the key \<open>"prompt"\<close> with value \<open>X\<close>, the batch
  invoker constructs the agent, calls its batch estimation once with exactly \<open>X\<close>, and
  returns what the operation returns (a result or an exception), unchanged. \<open>X\<close> and the
  result are of any type, so nothing is inspected or transformed.
\<close>

theorem invoke_passes_prompt_through:
  assumes "AWSCostEstimatorAgent = Inr agent" and "payload ''prompt'' = Some X"
  shows "invoke AWSCostEstimatorAgent payload =
           ([Call_AWSCostEstimatorAgent, Call_estimate_costs (Some X)],
            estimate_costs agent (Some X))"
  using assms by (simp add: invoke_def Let_def)

theorem invoke_passes_prompt_through_witness:
  "[''prompt'' \<mapsto> ''X''] ''prompt'' = Some ''X''
   \<and> invoke (Inr example_agent) [''prompt'' \<mapsto> ''X''] =
       ([Call_AWSCostEstimatorAgent, Call_estimate_costs (Some ''X'')], Inr ''cost of X'')"
proof -
  have p: "[''prompt'' \<mapsto> ''X''] ''prompt'' = Some ''X''" by simp
  have e: "estimate_costs example_agent (Some ''X'') = Inr ''cost of X''"
    by (simp add: example_agent_def)
  from invoke_passes_prompt_through [of "Inr example_agent" example_agent "[''prompt'' \<mapsto> ''X'']" "''X''", OF refl p]
  show ?thesis unfolding e using p by blast
qed

lemma emits_Nil_iff: "emits step s [] \<longleftrightarrow> step s = StopAsyncIteration"
  by (cases "step s") simp_all

lemma emits_Cons_iff:
  "emits step s (e # es) \<longleftrightarrow> (\<exists>s'. step s = Yield e s' \<and> emits step s' es)"
  by (cases "step s") auto

lemma emits_looping:
  "emits stream_anext stream es \<Longrightarrow> emits (invoke_async A stream_anext) (Looping stream) es"
proof (induction es arbitrary: stream)
  case Nil
  then have "stream_anext stream = StopAsyncIteration" by (simp only: emits_Nil_iff)
  then have "invoke_async A stream_anext (Looping stream) = StopAsyncIteration"
    by (simp add: async_for_step_def)
  then show ?case by (simp only: emits_Nil_iff)
next
  case (Cons e es)
  from Cons.prems obtain stream' where
    y: "stream_anext stream = Yield e stream'" and r: "emits stream_anext stream' es"
    unfolding emits_Cons_iff by blast
  from y have "invoke_async A stream_anext (Looping stream) = Yield e (Looping stream')"
    by (simp add: async_for_step_def)
  moreover from r have "emits (invoke_async A stream_anext) (Looping stream') es"
    by (rule Cons.IH)
  ultimately show ?case unfolding emits_Cons_iff by blast
qed

lemma emits_unique: "emits step s es \<Longrightarrow> emits step s es' \<Longrightarrow> es' = es"
proof (induction es arbitrary: s es')
  case Nil
  then have stop: "step s = StopAsyncIteration" by (simp only: emits_Nil_iff)
  show ?case
  proof (cases es')
    case Nil
    then show ?thesis by simp
  next
    case (Cons e' es'')
    with Nil.prems(2) stop show ?thesis unfolding emits_Cons_iff by simp
  qed
next
  case (Cons e es)
  from Cons.prems(1) obtain s1 where y: "step s = Yield e s1" and r: "emits step s1 es"
    unfolding emits_Cons_iff by blast
  show ?case
  proof (cases es')
    case Nil
    with Cons.prems(2) y show ?thesis unfolding emits_Nil_iff by simp
  next
    case c: (Cons e' es'')
    from Cons.prems(2) c have "emits step s (e' # es'')" by simp
    then obtain s2 where y': "step s = Yield e' s2" and r': "emits step s2 es''"
      unfolding emits_Cons_iff by blast
    from y y' have "e' = e" and "s2 = s1" by simp_all
    with r' Cons.IH [OF r] have "es'' = es" by blast
    with c \<open>e' = e\<close> show ?thesis by simp
  qed
qed

text \<open>
  Claim C4. When the agent's streaming estimation, called with the prompt, produces the
  finite event sequence \<open>es\<close> and stops, the streaming invoker yields exactly \<open>es\<close> in
  the same order and stops: it yields \<open>es\<close>, and any sequence it yields is \<open>es\<close>.
\<close>

theorem invoke_async_forwards_events:
  assumes "AWSCostEstimatorAgent = Inr agent"
    and "estimate_costs_stream agent (payload ''prompt'') = Inr stream"
    and "emits stream_anext stream es"
  shows "emits (invoke_async AWSCostEstimatorAgent stream_anext) (Not_started payload) es
         \<and> (\<forall>es'. emits (invoke_async AWSCostEstimatorAgent stream_anext) (Not_started payload) es'
               \<longrightarrow> es' = es)"
proof -
  have first: "invoke_async AWSCostEstimatorAgent stream_anext (Not_started payload) =
               invoke_async AWSCostEstimatorAgent stream_anext (Looping stream)"
    using assms(1,2) by simp
  have "emits (invoke_async AWSCostEstimatorAgent stream_anext) (Looping stream) es"
    using assms(3) by (rule emits_looping)
  then have e: "emits (invoke_async AWSCostEstimatorAgent stream_anext) (Not_started payload) es"
    using first by (cases es) (simp_all only: emits.simps)
  have "es' = es"
    if "emits (invoke_async AWSCostEstimatorAgent stream_anext) (Not_started payload) es'" for es'
    using e that by (rule emits_unique)
  with e show ?thesis by blast
qed

theorem invoke_async_forwards_events_witness:
  "estimate_costs_stream example_agent ([''prompt'' \<mapsto> ''X''] ''prompt'') = Inr [1, 2, 3]
   \<and> emits example_anext [1, 2, 3] [1, 2, 3]
   \<and> emits (invoke_async (Inr example_agent) example_anext) (Not_started [''prompt'' \<mapsto> ''X'']) [1, 2, 3]"
proof -
  have a: "estimate_costs_stream example_agent ([''prompt'' \<mapsto> ''X''] ''prompt'') = Inr [1, 2, 3]"
    by (simp add: example_agent_def)
  have b: "emits example_anext [1, 2, 3] [1, 2, 3]" by simp
  have "emits (invoke_async (Inr example_agent) example_anext)
          (Not_started [''prompt'' \<mapsto> ''X'']) [1, 2, 3]"
    using invoke_async_forwards_events
      [of "Inr example_agent" example_agent "[''prompt'' \<mapsto> ''X'']" "[1, 2, 3]"
          example_anext "[1, 2, 3]"] a b
    by blast
  with a b show ?thesis by (intro conjI)
qed

section \<open>Properties of the configuration load\<close>

lemma getitem_member_Some: "member_of c k = Some v \<Longrightarrow> getitem c k = Inr v"
  by (cases c) simp_all

lemma getitem_member_None: "member_of c k = None \<Longrightarrow> \<exists>e. getitem c k = Inl e"
  by (cases c) simp_all

lemma getitem2_nested_Some: "nested_key c k1 k2 = Some v \<Longrightarrow> getitem2 c k1 k2 = Inr v"
  by (auto simp: nested_key_def getitem2_def getitem_member_Some split: option.splits)

lemma getitem2_nested_None: "nested_key c k1 k2 = None \<Longrightarrow> \<exists>e. getitem2 c k1 k2 = Inl e"
proof (cases "member_of c k1")
  case None
  then obtain e where "getitem c k1 = Inl e" using getitem_member_None by blast
  then show ?thesis by (simp add: getitem2_def)
next
  case (Some v)
  assume "nested_key c k1 k2 = None"
  with Some have "member_of v k2 = None" by (simp add: nested_key_def)
  then obtain e where "getitem v k2 = Inl e" using getitem_member_None by blast
  with Some show ?thesis by (simp add: getitem2_def getitem_member_Some)
qed

text \<open>
  Claim C8. When the configuration file opens and parses, and the parsed value has the
  three nested keys \<open>provider.name\<close>, \<open>cognito.scope\<close> and \<open>runtime.url\<close>, the load
  ends normally and the three globals hold exactly the three values under those keys,
  whatever else the file holds. When one of the three nested keys is missing (or an outer
  value is not an object), the load raises: the module body is left with an exception, so
  the script does not start.
\<close>

theorem load_config_three_keys:
  assumes "open_read w CONFIG_FILE = Inr f" and "json_load w f = Inr config"
  shows "(nested_key config ''provider'' ''name'' = Some a
          \<and> nested_key config ''cognito'' ''scope'' = Some b
          \<and> nested_key config ''runtime'' ''url'' = Some c \<longrightarrow>
            load_config w initial_globals =
              (\<lparr>OAUTH_PROVIDER = a, OAUTH_SCOPE = b, RUNTIME_URL = c\<rparr>, None))
       \<and> (nested_key config ''provider'' ''name'' = None
          \<or> nested_key config ''cognito'' ''scope'' = None
          \<or> nested_key config ''runtime'' ''url'' = None \<longrightarrow>
            (\<exists>g e. load_config w initial_globals = (g, Some e)))"
proof (intro conjI impI)
  assume "nested_key config ''provider'' ''name'' = Some a
          \<and> nested_key config ''cognito'' ''scope'' = Some b
          \<and> nested_key config ''runtime'' ''url'' = Some c"
  then have "getitem2 config ''provider'' ''name'' = Inr a"
    and "getitem2 config ''cognito'' ''scope'' = Inr b"
    and "getitem2 config ''runtime'' ''url'' = Inr c"
    by (simp_all add: getitem2_nested_Some)
  then show "load_config w initial_globals =
              (\<lparr>OAUTH_PROVIDER = a, OAUTH_SCOPE = b, RUNTIME_URL = c\<rparr>, None)"
    using assms by (simp add: load_config_def initial_globals_def)
next
  assume m: "nested_key config ''provider'' ''name'' = None
          \<or> nested_key config ''cognito'' ''scope'' = None
          \<or> nested_key config ''runtime'' ''url'' = None"
  have "\<exists>e. getitem2 config ''provider'' ''name'' = Inl e
          \<or> getitem2 config ''cognito'' ''scope'' = Inl e
          \<or> getitem2 config ''runtime'' ''url'' = Inl e"
    using m getitem2_nested_None by blast
  then obtain e where e: "getitem2 config ''provider'' ''name'' = Inl e
          \<or> getitem2 config ''cognito'' ''scope'' = Inl e
          \<or> getitem2 config ''runtime'' ''url'' = Inl e" by blast
  show "\<exists>g e. load_config w initial_globals = (g, Some e)"
  proof (cases "getitem2 config ''provider'' ''name''")
    case (Inl e1)
    then show ?thesis using assms by (simp add: load_config_def)
  next
    case r1: (Inr v1)
    show ?thesis
    proof (cases "getitem2 config ''cognito'' ''scope''")
      case (Inl e2)
      then show ?thesis using assms r1 by (simp add: load_config_def)
    next
      case r2: (Inr v2)
      with r1 e have "getitem2 config ''runtime'' ''url'' = Inl e" by simp
      then show ?thesis using assms r1 r2 by (simp add: load_config_def)
    qed
  qed
qed

theorem load_config_three_keys_witness:
  "load_config (example_world 200) initial_globals =
     (\<lparr>OAUTH_PROVIDER = JStr ''p'', OAUTH_SCOPE = JStr ''s'', RUNTIME_URL = JStr ''https://runtime''\<rparr>,
      None)
   \<and> (\<exists>g e. load_config incomplete_world initial_globals = (g, Some e))"
proof -
  let ?full = "JObj [(''provider'', JObj [(''name'', JStr ''p'')]),
                     (''cognito'', JObj [(''scope'', JStr ''s'')]),
                     (''runtime'', JObj [(''url'', JStr ''https://runtime'')])] :: nat json"
  let ?part = "JObj [(''provider'', JObj [(''name'', JStr ''p'')]),
                     (''cognito'', JObj []),
                     (''runtime'', JObj [(''url'', JStr ''https://runtime'')])] :: nat json"
  have o1: "open_read (example_world 200) CONFIG_FILE = Inr ''config''"
    by (simp add: example_world_def)
  have j1: "json_load (example_world 200) ''config'' = Inr ?full"
    by (simp add: example_world_def)
  have k1: "nested_key ?full ''provider'' ''name'' = Some (JStr ''p'')
          \<and> nested_key ?full ''cognito'' ''scope'' = Some (JStr ''s'')
          \<and> nested_key ?full ''runtime'' ''url'' = Some (JStr ''https://runtime'')"
    by (simp add: nested_key_def)
  have o2: "open_read incomplete_world CONFIG_FILE = Inr ''config''"
    by (simp add: incomplete_world_def example_world_def)
  have j2: "json_load incomplete_world ''config'' = Inr ?part"
    by (simp add: incomplete_world_def)
  have k2: "nested_key ?part ''cognito'' ''scope'' = None"
    by (simp add: nested_key_def)
  from load_config_three_keys [OF o1 j1] k1
  have a: "load_config (example_world 200) initial_globals =
     (\<lparr>OAUTH_PROVIDER = JStr ''p'', OAUTH_SCOPE = JStr ''s'', RUNTIME_URL = JStr ''https://runtime''\<rparr>,
      None)"
    by blast
  from load_config_three_keys [OF o2 j2] k2
  have b: "\<exists>g e. load_config incomplete_world initial_globals = (g, Some e)"
    by blast
  from a b show ?thesis by (rule conjI)
qed


section \<open>Properties of the authenticated estimator call\<close>

lemma log_jwt_token_details_posts: "http_posts (fst (log_jwt_token_details w t)) = []"
  by (simp add: log_jwt_token_details_def for_parts_posts)

lemma log_jwt_token_details_result: "snd (log_jwt_token_details w t) = Inr ()"
  by (simp add: log_jwt_token_details_def for_parts_returns)

lemma log_token_if_present_result: "snd (log_token_if_present w t) = Inr ()"
proof (cases t)
  case None
  then show ?thesis by simp
next
  case (Some s)
  obtain evs r where l: "log_jwt_token_details w s = (evs, r)"
    by (cases "log_jwt_token_details w s")
  with log_jwt_token_details_result [of w s] have "r = Inr ()" by simp
  with Some l show ?thesis by simp
qed

lemma log_token_if_present_posts: "http_posts (fst (log_token_if_present w t)) = []"
proof (cases t)
  case None
  then show ?thesis by simp
next
  case (Some s)
  obtain evs r where l: "log_jwt_token_details w s = (evs, r)"
    by (cases "log_jwt_token_details w s")
  with log_jwt_token_details_posts [of w s] have "http_posts evs = []" by simp
  with Some l show ?thesis by simp
qed

lemma cost_estimator_with_auth_cases:
  "cost_estimator_with_auth w g a t =
     (fst (log_token_if_present w t) @ [Http_post (post_request w g a t)],
      case requests_post w (post_request w g a t) of
        Inl e \<Rightarrow> Inl e
      | Inr response \<Rightarrow>
          (case raise_for_status response of Inl e \<Rightarrow> Inl e | Inr u \<Rightarrow> Inr (text_of response)))"
proof -
  obtain evs r where l: "log_token_if_present w t = (evs, r)"
    by (cases "log_token_if_present w t")
  with log_token_if_present_result [of w t] have "r = Inr ()" by simp
  with l show ?thesis
    by (simp add: cost_estimator_with_auth_def Let_def split: sum.splits)
qed

lemma cost_estimator_with_auth_posts:
  "http_posts (fst (cost_estimator_with_auth w g a t)) = [post_request w g a t]"
  by (simp add: cost_estimator_with_auth_cases http_posts_append log_token_if_present_posts)

text \<open>
  Claim C6, as the code has it. The call sends one POST and never another. When the
  response has a status from 400 to 599, the call raises \<open>HTTPError\<close> and returns no
  result; for every other status it returns the body of the response as it is. The
  status is checked by \<open>raise_for_status\<close>, which raises for client and server errors
  only, not for every status outside 200 to 299.
\<close>

theorem raises_on_client_and_server_errors:
  "(requests_post w (post_request w g architecture_description access_token) = Inr response
      \<and> 400 \<le> status_code response \<and> status_code response < 600 \<longrightarrow>
        snd (cost_estimator_with_auth w g architecture_description access_token) =
          Inl (HTTPError (status_code response)))
   \<and> (requests_post w (post_request w g architecture_description access_token) = Inr response
      \<and> \<not> (400 \<le> status_code response \<and> status_code response < 600) \<longrightarrow>
        snd (cost_estimator_with_auth w g architecture_description access_token) =
          Inr (text_of response))
   \<and> http_posts (fst (cost_estimator_with_auth w g architecture_description access_token)) =
        [post_request w g architecture_description access_token]"
proof (intro conjI impI)
  assume "requests_post w (post_request w g architecture_description access_token) = Inr response
      \<and> 400 \<le> status_code response \<and> status_code response < 600"
  then show "snd (cost_estimator_with_auth w g architecture_description access_token) =
          Inl (HTTPError (status_code response))"
    by (simp add: cost_estimator_with_auth_cases raise_for_status_def)
next
  assume "requests_post w (post_request w g architecture_description access_token) = Inr response
      \<and> \<not> (400 \<le> status_code response \<and> status_code response < 600)"
  then show "snd (cost_estimator_with_auth w g architecture_description access_token) =
          Inr (text_of response)"
    by (auto simp: cost_estimator_with_auth_cases raise_for_status_def)
next
  show "http_posts (fst (cost_estimator_with_auth w g architecture_description access_token)) =
        [post_request w g architecture_description access_token]"
    by (rule cost_estimator_with_auth_posts)
qed

theorem raises_on_client_and_server_errors_witness:
  "snd (cost_estimator_with_auth (example_world 503) example_globals ''two instances''
          (Some ''aGVsbG8.d29ybGQ.sig'')) = Inl (HTTPError 503)
   \<and> snd (cost_estimator_with_auth (example_world 200) example_globals ''two instances''
          (Some ''aGVsbG8.d29ybGQ.sig'')) = Inr ''body''"
proof -
  let ?t = "Some ''aGVsbG8.d29ybGQ.sig''"
  have p1: "requests_post (example_world 503) (post_request (example_world 503) example_globals ''two instances'' ?t)
            = Inr \<lparr>status_code = 503, text_of = ''body''\<rparr>"
    by (simp add: example_world_def)
  have p2: "requests_post (example_world 200) (post_request (example_world 200) example_globals ''two instances'' ?t)
            = Inr \<lparr>status_code = 200, text_of = ''body''\<rparr>"
    by (simp add: example_world_def)
  have s1: "400 \<le> status_code \<lparr>status_code = 503, text_of = ''body''\<rparr>
            \<and> status_code \<lparr>status_code = 503, text_of = ''body''\<rparr> < 600" by simp
  have s2: "\<not> (400 \<le> status_code \<lparr>status_code = 200, text_of = ''body''\<rparr>
            \<and> status_code \<lparr>status_code = 200, text_of = ''body''\<rparr> < 600)" by simp
  from raises_on_client_and_server_errors
    [of "example_world 503" example_globals "''two instances''" ?t "\<lparr>status_code = 503, text_of = ''body''\<rparr>"]
    p1 s1
  have a: "snd (cost_estimator_with_auth (example_world 503) example_globals ''two instances'' ?t) =
           Inl (HTTPError (status_code \<lparr>status_code = 503, text_of = ''body''\<rparr>))"
    by blast
  from raises_on_client_and_server_errors
    [of "example_world 200" example_globals "''two instances''" ?t "\<lparr>status_code = 200, text_of = ''body''\<rparr>"]
    p2 s2
  have b: "snd (cost_estimator_with_auth (example_world 200) example_globals ''two instances'' ?t) =
           Inr (text_of \<lparr>status_code = 200, text_of = ''body''\<rparr>)"
    by blast
  from a b show ?thesis by simp
qed

text \<open>
  The claim as the specification words it fails at status 304: the status is not a 2xx
  status, yet the call returns the body.
\<close>

theorem not_modified_does_not_raise:
  "requests_post (example_world 304)
     (post_request (example_world 304) example_globals ''two instances'' (Some ''aGVsbG8.d29ybGQ.sig''))
     = Inr \<lparr>status_code = 304, text_of = ''body''\<rparr>
   \<and> \<not> (200 \<le> (304::int) \<and> (304::int) < 300)
   \<and> snd (cost_estimator_with_auth (example_world 304) example_globals ''two instances''
          (Some ''aGVsbG8.d29ybGQ.sig'')) = Inr ''body''"
  by (simp add: cost_estimator_with_auth_cases raise_for_status_def example_world_def)

text \<open>
  Claim C7. Every invocation sends exactly one POST, to the configured runtime URL, with
  the headers \<open>Authorization\<close> (\<open>"Bearer "\<close> followed by the token as the f-string
  renders it), \<open>Content-Type: application/json\<close>, and the session header and the trace
  header both holding the session identifier generated in this call, and with the body
  \<open>json.dumps({"prompt": architecture_description})\<close>.
\<close>

theorem posts_once_with_bearer_token:
  "http_posts (fst (cost_estimator_with_auth w g architecture_description access_token)) =
     [\<lparr>url = RUNTIME_URL g,
       headers =
         [(''Authorization'',
           ''Bearer '' @ (case access_token of None \<Rightarrow> ''None'' | Some token \<Rightarrow> token)),
          (''Content-Type'', ''application/json''),
          (''X-Amzn-Bedrock-AgentCore-Runtime-Session-Id'',
           ''runtime-with-identity-'' @ now_utc_strftime w ''%Y%m%dT%H%M%S%fZ''),
          (''X-Amzn-Trace-Id'',
           ''runtime-with-identity-'' @ now_utc_strftime w ''%Y%m%dT%H%M%S%fZ'')],
       data = json_dumps w (JObj [(''prompt'', JStr architecture_description)])\<rparr>]"
  by (cases access_token)
    (simp_all add: cost_estimator_with_auth_posts post_request_def session_id_of_def Let_def)

text \<open>
  Claim C10. With the token absent (\<open>None\<close>) or empty, nothing is logged and nothing is
  decoded: the only effect is the POST, whose \<open>Authorization\<close> header is
  \<open>"Bearer None"\<close> for \<open>None\<close> and \<open>"Bearer "\<close> for the empty string. The call does not
  fail for lack of a token: its outcome is that of the POST alone.
\<close>

theorem absent_token_still_posts:
  "fst (cost_estimator_with_auth w g architecture_description None) =
     [Http_post
       \<lparr>url = RUNTIME_URL g,
        headers =
          [(''Authorization'', ''Bearer None''),
           (''Content-Type'', ''application/json''),
           (''X-Amzn-Bedrock-AgentCore-Runtime-Session-Id'',
            ''runtime-with-identity-'' @ now_utc_strftime w ''%Y%m%dT%H%M%S%fZ''),
           (''X-Amzn-Trace-Id'',
            ''runtime-with-identity-'' @ now_utc_strftime w ''%Y%m%dT%H%M%S%fZ'')],
        data = json_dumps w (JObj [(''prompt'', JStr architecture_description)])\<rparr>]
   \<and> fst (cost_estimator_with_auth w g architecture_description (Some [])) =
     [Http_post
       \<lparr>url = RUNTIME_URL g,
        headers =
          [(''Authorization'', ''Bearer ''),
           (''Content-Type'', ''application/json''),
           (''X-Amzn-Bedrock-AgentCore-Runtime-Session-Id'',
            ''runtime-with-identity-'' @ now_utc_strftime w ''%Y%m%dT%H%M%S%fZ''),
           (''X-Amzn-Trace-Id'',
            ''runtime-with-identity-'' @ now_utc_strftime w ''%Y%m%dT%H%M%S%fZ'')],
        data = json_dumps w (JObj [(''prompt'', JStr architecture_description)])\<rparr>]
   \<and> snd (cost_estimator_with_auth w g architecture_description None) =
       (case requests_post w (post_request w g architecture_description None) of
          Inl e \<Rightarrow> Inl e
        | Inr response \<Rightarrow>
            if 400 \<le> status_code response \<and> status_code response < 600
            then Inl (HTTPError (status_code response)) else Inr (text_of response))
   \<and> snd (cost_estimator_with_auth w g architecture_description (Some [])) =
       (case requests_post w (post_request w g architecture_description (Some [])) of
          Inl e \<Rightarrow> Inl e
        | Inr response \<Rightarrow>
            if 400 \<le> status_code response \<and> status_code response < 600
            then Inl (HTTPError (status_code response)) else Inr (text_of response))"
proof -
  have f: "fst (cost_estimator_with_auth w g architecture_description t) =
           [Http_post (post_request w g architecture_description t)]"
    if "t = None \<or> t = Some []" for t
    using that by (auto simp: cost_estimator_with_auth_cases)
  have s: "snd (cost_estimator_with_auth w g architecture_description t) =
       (case requests_post w (post_request w g architecture_description t) of
          Inl e \<Rightarrow> Inl e
        | Inr response \<Rightarrow>
            if 400 \<le> status_code response \<and> status_code response < 600
            then Inl (HTTPError (status_code response)) else Inr (text_of response))" for t
    by (auto simp: cost_estimator_with_auth_cases raise_for_status_def split: sum.splits)
  have r1: "post_request w g architecture_description None =
       \<lparr>url = RUNTIME_URL g,
        headers =
          [(''Authorization'', ''Bearer None''),
           (''Content-Type'', ''application/json''),
           (''X-Amzn-Bedrock-AgentCore-Runtime-Session-Id'',
            ''runtime-with-identity-'' @ now_utc_strftime w ''%Y%m%dT%H%M%S%fZ''),
           (''X-Amzn-Trace-Id'',
            ''runtime-with-identity-'' @ now_utc_strftime w ''%Y%m%dT%H%M%S%fZ'')],
        data = json_dumps w (JObj [(''prompt'', JStr architecture_description)])\<rparr>"
    by (simp add: post_request_def session_id_of_def Let_def)
  have r2: "post_request w g architecture_description (Some []) =
       \<lparr>url = RUNTIME_URL g,
        headers =
          [(''Authorization'', ''Bearer ''),
           (''Content-Type'', ''application/json''),
           (''X-Amzn-Bedrock-AgentCore-Runtime-Session-Id'',
            ''runtime-with-identity-'' @ now_utc_strftime w ''%Y%m%dT%H%M%S%fZ''),
           (''X-Amzn-Trace-Id'',
            ''runtime-with-identity-'' @ now_utc_strftime w ''%Y%m%dT%H%M%S%fZ'')],
        data = json_dumps w (JObj [(''prompt'', JStr architecture_description)])\<rparr>"
    by (simp add: post_request_def session_id_of_def Let_def)
  from f [of None] f [of "Some []"] s [of None] s [of "Some []"] show ?thesis
    unfolding r1 r2 by simp
qed


end
